theory Spec2Isabelle
  imports Main
begin

section \<open>Secretary: rendering ODF templates with a templating engine\<close>

text \<open>
  A shallow embedding of \<^verbatim>\<open>secretary.py\<close>. Python text is modelled as
  \<^typ>\<open>string\<close>, every character standing for a code point below 256; Python's
  exceptions are values of \<open>py_error\<close>, and a function that can raise returns
  \<open>py_error + 'a\<close>.
\<close>

datatype py_error =
  AttributeError | IndexError | KeyError | TypeError | IOError
  | HierarchyRequestErr | NotFoundErr | SecretaryError | NoFuel

subsection \<open>String operations of Python used by the module\<close>

definition newline :: char where
  "newline = CHR 0x0A"

text \<open>\<^verbatim>\<open>s.replace('\n', r)\<close>\<close>

definition replace_newline :: "string \<Rightarrow> string \<Rightarrow> string" where
  "replace_newline r s = concat (map (\<lambda>c. if c = newline then r else [c]) s)"

text \<open>\<^verbatim>\<open>s.startswith(p)\<close>\<close>

definition startswith :: "string \<Rightarrow> string \<Rightarrow> bool" where
  "startswith s p = (take (length p) s = p)"

text \<open>The white space \<^verbatim>\<open>unicode.strip()\<close> removes, among the code points below 256.\<close>

definition is_space :: "char \<Rightarrow> bool" where
  "is_space c =
     (let n = (of_char c :: nat)
      in (9 \<le> n \<and> n \<le> 13) \<or> (28 \<le> n \<and> n \<le> 32) \<or> n = 133 \<or> n = 160)"

definition strip :: "string \<Rightarrow> string" where
  "strip s = rev (dropWhile is_space (rev (dropWhile is_space s)))"

text \<open>\<^verbatim>\<open>unicode.lower()\<close> on the code points below 256.\<close>

definition lower_char :: "char \<Rightarrow> char" where
  "lower_char c =
     (let n = (of_char c :: nat)
      in if (65 \<le> n \<and> n \<le> 90) \<or> (192 \<le> n \<and> n \<le> 222 \<and> n \<noteq> 215)
         then char_of (n + 32) else c)"

definition lower :: "string \<Rightarrow> string" where
  "lower s = map lower_char s"

text \<open>The case folding of \<^verbatim>\<open>re.IGNORECASE\<close> without \<^verbatim>\<open>re.UNICODE\<close>: ASCII letters only.\<close>

definition ascii_lower :: "char \<Rightarrow> char" where
  "ascii_lower c =
     (let n = (of_char c :: nat)
      in if 65 \<le> n \<and> n \<le> 90 then char_of (n + 32) else c)"

subsection \<open>The fragment of \<^verbatim>\<open>re\<close> the module's patterns use\<close>

text \<open>
  Every pattern of the module is a sequence of single characters, character classes,
  \<^verbatim>\<open>.\<close>, greedy and lazy stars over one of these, and the anchors \<^verbatim>\<open>^\<close> and \<^verbatim>\<open>$\<close>.
  \<open>re_match\<close> is the backtracking matcher at one position: a greedy star first tries to
  take one more character and gives it back when the rest fails, a lazy star first tries
  the rest. It returns the text each item matched. The flag \<open>ic\<close> is
  \<^verbatim>\<open>re.IGNORECASE\<close>; \<^verbatim>\<open>re.DOTALL\<close> is never in force, so \<^verbatim>\<open>.\<close> does not match a
  newline; \<open>bol\<close> says that the position is the start of the text.
\<close>

datatype re_atom = Lit char | OneOf string | Dot

datatype re_item = One re_atom | Greedy re_atom | Lazy re_atom | Bol | Eol

fun atom_match :: "bool \<Rightarrow> re_atom \<Rightarrow> char \<Rightarrow> bool" where
  "atom_match ic (Lit c) x = (if ic then ascii_lower x = ascii_lower c else x = c)"
| "atom_match ic (OneOf cs) x =
     (if ic then ascii_lower x \<in> set (map ascii_lower cs) else x \<in> set cs)"
| "atom_match ic Dot x = (x \<noteq> newline)"

definition push_piece :: "string \<Rightarrow> string list option \<Rightarrow> string list option" where
  "push_piece p r = map_option (\<lambda>ps. p # ps) r"

fun grow_piece :: "char \<Rightarrow> string list option \<Rightarrow> string list option" where
  "grow_piece x (Some (p # ps)) = Some ((x # p) # ps)"
| "grow_piece x _ = None"

fun re_match :: "bool \<Rightarrow> bool \<Rightarrow> re_item list \<Rightarrow> string \<Rightarrow> string list option" where
  "re_match ic bol [] s = Some []"
| "re_match ic bol (One a # r) [] = None"
| "re_match ic bol (One a # r) (x # s) =
     (if atom_match ic a x then push_piece [x] (re_match ic False r s) else None)"
| "re_match ic bol (Greedy a # r) [] = push_piece [] (re_match ic bol r [])"
| "re_match ic bol (Greedy a # r) (x # s) =
     (if atom_match ic a x
      then (case grow_piece x (re_match ic False (Greedy a # r) s) of
              Some ps \<Rightarrow> Some ps
            | None \<Rightarrow> push_piece [] (re_match ic bol r (x # s)))
      else push_piece [] (re_match ic bol r (x # s)))"
| "re_match ic bol (Lazy a # r) [] = push_piece [] (re_match ic bol r [])"
| "re_match ic bol (Lazy a # r) (x # s) =
     (case re_match ic bol r (x # s) of
        Some ps \<Rightarrow> Some ([] # ps)
      | None \<Rightarrow>
          if atom_match ic a x then grow_piece x (re_match ic False (Lazy a # r) s) else None)"
| "re_match ic bol (Bol # r) s = (if bol then push_piece [] (re_match ic bol r s) else None)"
| "re_match ic bol (Eol # r) s =
     (if s = [] \<or> s = [newline] then push_piece [] (re_match ic bol r s) else None)"

text \<open>\<^verbatim>\<open>re.findall(p, s)\<close> is non-empty exactly when \<open>p\<close> matches at some position.\<close>

fun re_search :: "bool \<Rightarrow> bool \<Rightarrow> re_item list \<Rightarrow> string \<Rightarrow> bool" where
  "re_search ic bol p [] = (re_match ic bol p [] \<noteq> None)"
| "re_search ic bol p (x # s) = (re_match ic bol p (x # s) \<noteq> None \<or> re_search ic False p s)"

text \<open>
  \<^verbatim>\<open>re.sub(p, repl, s)\<close> for a pattern that is a sequence of groups and a replacement
  built of group references and text. Matches are found from left to right and do not
  overlap: after a match of \<open>n\<close> characters the next \<open>n - 1\<close> characters are skipped.
  (No pattern of the module matches the empty text.)
\<close>

datatype repl_part = Grp nat | Txt string

fun regroup :: "nat list \<Rightarrow> string list \<Rightarrow> string list" where
  "regroup [] ps = []"
| "regroup (n # ns) ps = concat (take n ps) # regroup ns (drop n ps)"

fun expand :: "repl_part list \<Rightarrow> string list \<Rightarrow> string" where
  "expand [] gs = []"
| "expand (Grp n # r) gs = gs ! (n - 1) @ expand r gs"
| "expand (Txt t # r) gs = t @ expand r gs"

fun re_sub_from ::
  "bool \<Rightarrow> re_item list list \<Rightarrow> repl_part list \<Rightarrow> bool \<Rightarrow> nat \<Rightarrow> string \<Rightarrow> string" where
  "re_sub_from ic p r bol k [] = []"
| "re_sub_from ic p r bol (Suc k) (x # s) = re_sub_from ic p r False k s"
| "re_sub_from ic p r bol 0 (x # s) =
     (case re_match ic bol (concat p) (x # s) of
        None \<Rightarrow> x # re_sub_from ic p r False 0 s
      | Some ps \<Rightarrow>
          expand r (regroup (map length p) ps)
          @ (if length (concat ps) = 0 then x # re_sub_from ic p r False 0 s
             else re_sub_from ic p r False (length (concat ps) - 1) s))"

definition re_sub :: "bool \<Rightarrow> re_item list list \<Rightarrow> repl_part list \<Rightarrow> string \<Rightarrow> string" where
  "re_sub ic p r s = re_sub_from ic p r True 0 s"

subsection \<open>\<^verbatim>\<open>unescape_gt_lt\<close>\<close>

text \<open>
  \<^verbatim>\<open>r'({[{|%].*)(&gt;)(.*[%|}]})': r'\1>\3'\<close> and the same for \<^verbatim>\<open>&lt;\<close>. The flags
  argument is \<^verbatim>\<open>re.IGNORECASE or re.DOTALL\<close>, whose value is \<^verbatim>\<open>re.IGNORECASE\<close>.
\<close>

definition entity_pattern :: "string \<Rightarrow> re_item list list" where
  "entity_pattern e =
     [[One (Lit CHR ''{''), One (OneOf ''{|%''), Greedy Dot],
      map (\<lambda>c. One (Lit c)) e,
      [Greedy Dot, One (OneOf ''%|}''), One (Lit CHR ''}'')]]"

definition unescape_entities :: "(re_item list list \<times> repl_part list) list" where
  "unescape_entities =
     [(entity_pattern ''&gt;'', [Grp 1, Txt ''>'', Grp 3]),
      (entity_pattern ''&lt;'', [Grp 1, Txt ''<'', Grp 3])]"

fun sub_each :: "(re_item list list \<times> repl_part list) list \<Rightarrow> string \<Rightarrow> string" where
  "sub_each [] text = text"
| "sub_each ((pattern, repl) # rest) text = sub_each rest (re_sub True pattern repl text)"

definition unescape_gt_lt :: "string \<Rightarrow> string" where
  "unescape_gt_lt text = sub_each unescape_entities text"

subsection \<open>\<^verbatim>\<open>UndefinedSilently\<close>\<close>

text \<open>
  The class body binds six names: the function \<^verbatim>\<open>silently_undefined\<close> (returns \<^verbatim>\<open>''\<close>),
  the lambda \<^verbatim>\<open>return_new\<close> (returns a new \<^verbatim>\<open>UndefinedSilently()\<close>), and
  \<^verbatim>\<open>__unicode__\<close>, \<^verbatim>\<open>__str__\<close>, \<^verbatim>\<open>__call__\<close>, \<^verbatim>\<open>__getattr__\<close> bound to one of the two.
\<close>

datatype py_function = Silently_undefined | Return_new

datatype py_value =
  Undefined_silently | Bound_method py_function | Text string | Other nat

definition undefined_silently_dict :: "(string \<times> py_function) list" where
  "undefined_silently_dict =
     [(''silently_undefined'', Silently_undefined),
      (''return_new'', Return_new),
      (''__unicode__'', Silently_undefined),
      (''__str__'', Silently_undefined),
      (''__call__'', Return_new),
      (''__getattr__'', Return_new)]"

fun apply_function :: "py_function \<Rightarrow> py_value" where
  "apply_function Silently_undefined = Text []"
| "apply_function Return_new = Undefined_silently"

text \<open>One step of a chain: an attribute access or a call (with any arguments).\<close>

datatype access = Attr string | Call "py_value list"

text \<open>
  What the class does not define is a parameter: \<open>inherited\<close> gives the attributes that
  normal lookup finds on the templating engine's \<^verbatim>\<open>Undefined\<close> base class, \<open>foreign_step\<close>
  and \<open>foreign_str\<close> what an access, a call and the conversion to text do on a value that
  is no \<^verbatim>\<open>UndefinedSilently\<close> instance.
\<close>

record host =
  inherited :: "string \<Rightarrow> py_value option"
  foreign_step :: "py_value \<Rightarrow> access \<Rightarrow> py_error + py_value"
  foreign_str :: "py_value \<Rightarrow> string"

text \<open>
  Attribute access on an instance: Python looks the name up on the class, then on its
  bases, and calls the hook \<^verbatim>\<open>__getattr__\<close> only when that lookup fails. A function found
  on the class comes back as a method bound to the instance.
\<close>

definition getattr_undefined :: "host \<Rightarrow> string \<Rightarrow> py_value" where
  "getattr_undefined h name =
     (case map_of undefined_silently_dict name of
        Some f \<Rightarrow> Bound_method f
      | None \<Rightarrow>
          (case inherited h name of
             Some v \<Rightarrow> v
           | None \<Rightarrow>
               (case map_of undefined_silently_dict ''__getattr__'' of
                  Some hook \<Rightarrow> apply_function hook
                | None \<Rightarrow> Other 0)))"

definition call_undefined :: "py_value" where
  "call_undefined =
     (case map_of undefined_silently_dict ''__call__'' of
        Some f \<Rightarrow> apply_function f
      | None \<Rightarrow> Other 0)"

fun step :: "host \<Rightarrow> py_value \<Rightarrow> access \<Rightarrow> py_error + py_value" where
  "step h Undefined_silently (Attr name) = Inr (getattr_undefined h name)"
| "step h Undefined_silently (Call args) = Inr call_undefined"
| "step h (Bound_method f) (Call args) = Inr (apply_function f)"
| "step h v a = foreign_step h v a"

fun evaluate :: "host \<Rightarrow> py_value \<Rightarrow> access list \<Rightarrow> py_error + py_value" where
  "evaluate h v [] = Inr v"
| "evaluate h v (a # as) =
     (case step h v a of Inl e \<Rightarrow> Inl e | Inr v' \<Rightarrow> evaluate h v' as)"

fun string_form :: "host \<Rightarrow> py_value \<Rightarrow> string" where
  "string_form h Undefined_silently =
     (case map_of undefined_silently_dict ''__str__'' of
        Some f \<Rightarrow> (case apply_function f of Text s \<Rightarrow> s | v \<Rightarrow> foreign_str h v)
      | None \<Rightarrow> foreign_str h Undefined_silently)"
| "string_form h (Text s) = s"
| "string_form h v = foreign_str h v"

text \<open>A step that the class's hooks answer: a call, or an attribute that normal lookup
  does not find.\<close>

fun hooked :: "host \<Rightarrow> access \<Rightarrow> bool" where
  "hooked h (Call args) = True"
| "hooked h (Attr name) =
     (map_of undefined_silently_dict name = None \<and> inherited h name = None)"

text \<open>A host whose base class adds no attribute and whose other values raise.\<close>

definition plain_host :: host where
  "plain_host =
     \<lparr>inherited = (\<lambda>name. None),
      foreign_step = (\<lambda>v a. Inl (case a of Attr name \<Rightarrow> AttributeError | Call args \<Rightarrow> TypeError)),
      foreign_str = (\<lambda>v. ''<object>'')\<rparr>"

subsection \<open>The document tree of \<^verbatim>\<open>xml.dom.minidom\<close>\<close>

text \<open>
  The nodes of all documents live in one heap, a list indexed by node identity; a node
  created later has a larger identity. A node holds what the module reads or writes:
  its class, name, attributes, character data, children, parent, and the three counters
  that \<^verbatim>\<open>inc_node_fields_count\<close> attaches (\<open>None\<close> while the attribute is not set). The
  sibling links of minidom are read off the parent's list of children. Three classes of
  nodes are modelled: documents, elements and text; a document accepts elements as
  children, an element accepts elements and text, a text node accepts none, and a second
  element appended to a document is refused.
\<close>

type_synonym node_id = nat

datatype node_type = Document_node | Element_node | Text_node

record node =
  nodeType :: node_type
  nodeName :: string
  attributes :: "(string \<times> string) list"
  data :: string
  childNodes :: "node_id list"
  parentNode :: "node_id option"
  secretary_field_count :: "int option"
  secretary_variable_count :: "int option"
  secretary_block_count :: "int option"

type_synonym heap = "node list"

fun on_success :: "'e + 'a \<Rightarrow> ('a \<Rightarrow> 'e + 'b) \<Rightarrow> 'e + 'b" where
  "on_success (Inl e) f = Inl e"
| "on_success (Inr x) f = f x"

definition new_node :: "node_type \<Rightarrow> string \<Rightarrow> string \<Rightarrow> node" where
  "new_node t name text =
     \<lparr>nodeType = t, nodeName = name, attributes = [], data = text, childNodes = [],
      parentNode = None, secretary_field_count = None, secretary_variable_count = None,
      secretary_block_count = None\<rparr>"

text \<open>\<^verbatim>\<open>createTextNode\<close> and \<^verbatim>\<open>createElement\<close>: the new heap and the new node.\<close>

definition createTextNode :: "heap \<Rightarrow> string \<Rightarrow> heap \<times> node_id" where
  "createTextNode h text = (h @ [new_node Text_node ''#text'' text], length h)"

definition createElement :: "heap \<Rightarrow> string \<Rightarrow> heap \<times> node_id" where
  "createElement h name = (h @ [new_node Element_node name []], length h)"

text \<open>The classes of children a node accepts (\<^verbatim>\<open>_child_node_types\<close>).\<close>

fun child_allowed :: "node_type \<Rightarrow> node_type \<Rightarrow> bool" where
  "child_allowed Document_node c = (c = Element_node)"
| "child_allowed Element_node c = (c = Element_node \<or> c = Text_node)"
| "child_allowed Text_node c = False"

definition hasChildNodes :: "heap \<Rightarrow> node_id \<Rightarrow> bool" where
  "hasChildNodes h n = (childNodes (h ! n) \<noteq> [])"

definition lastChild :: "heap \<Rightarrow> node_id \<Rightarrow> node_id option" where
  "lastChild h n = (if childNodes (h ! n) = [] then None else Some (last (childNodes (h ! n))))"

fun next_in :: "node_id list \<Rightarrow> node_id \<Rightarrow> node_id option" where
  "next_in [] n = None"
| "next_in [c] n = None"
| "next_in (c # d # cs) n = (if c = n then Some d else next_in (d # cs) n)"

definition nextSibling :: "heap \<Rightarrow> node_id \<Rightarrow> node_id option" where
  "nextSibling h n =
     (case parentNode (h ! n) of None \<Rightarrow> None | Some p \<Rightarrow> next_in (childNodes (h ! p)) n)"

text \<open>\<^verbatim>\<open>getAttribute\<close>: the value, or the empty text when the attribute is absent.\<close>

definition getAttribute :: "heap \<Rightarrow> node_id \<Rightarrow> string \<Rightarrow> string" where
  "getAttribute h n name = (case map_of (attributes (h ! n)) name of None \<Rightarrow> [] | Some v \<Rightarrow> v)"

definition removeChild :: "heap \<Rightarrow> node_id \<Rightarrow> node_id \<Rightarrow> py_error + heap" where
  "removeChild h self oldChild =
     (if oldChild \<in> set (childNodes (h ! self))
      then Inr ((h[self := (h ! self)\<lparr>childNodes := remove1 oldChild (childNodes (h ! self))\<rparr>])
                 [oldChild := (h ! oldChild)\<lparr>parentNode := None\<rparr>])
      else Inl NotFoundErr)"

definition detach :: "heap \<Rightarrow> node_id \<Rightarrow> py_error + heap" where
  "detach h n = (case parentNode (h ! n) of None \<Rightarrow> Inr h | Some p \<Rightarrow> removeChild h p n)"

definition appendChild :: "heap \<Rightarrow> node_id \<Rightarrow> node_id \<Rightarrow> py_error + heap" where
  "appendChild h self newChild =
     (if \<not> child_allowed (nodeType (h ! self)) (nodeType (h ! newChild)) then Inl HierarchyRequestErr
      else on_success (detach h newChild) (\<lambda>h1.
        if nodeType (h1 ! self) = Document_node \<and> nodeType (h1 ! newChild) = Element_node
           \<and> list_ex (\<lambda>c. nodeType (h1 ! c) = Element_node) (childNodes (h1 ! self))
        then Inl HierarchyRequestErr
        else Inr ((h1[self := (h1 ! self)\<lparr>childNodes := childNodes (h1 ! self) @ [newChild]\<rparr>])
                    [newChild := (h1 ! newChild)\<lparr>parentNode := Some self\<rparr>])))"

fun insert_before :: "node_id list \<Rightarrow> node_id \<Rightarrow> node_id \<Rightarrow> node_id list" where
  "insert_before [] new ref = []"
| "insert_before (c # cs) new ref = (if c = ref then new # c # cs else c # insert_before cs new ref)"

definition insertBefore :: "heap \<Rightarrow> node_id \<Rightarrow> node_id \<Rightarrow> node_id option \<Rightarrow> py_error + heap" where
  "insertBefore h self newChild refChild =
     (if \<not> child_allowed (nodeType (h ! self)) (nodeType (h ! newChild)) then Inl HierarchyRequestErr
      else on_success (detach h newChild) (\<lambda>h1.
        case refChild of
          None \<Rightarrow> appendChild h1 self newChild
        | Some r \<Rightarrow>
            if r \<in> set (childNodes (h1 ! self))
            then Inr ((h1[self := (h1 ! self)\<lparr>childNodes := insert_before (childNodes (h1 ! self)) newChild r\<rparr>])
                        [newChild := (h1 ! newChild)\<lparr>parentNode := Some self\<rparr>])
            else Inl NotFoundErr))"

text \<open>
  \<^verbatim>\<open>getElementsByTagName\<close>: the element descendants with the given tag name, in document
  order. The fuel bounds the depth of the descent; a tree is never deeper than the heap
  is long.
\<close>

fun elements_by_tag :: "nat \<Rightarrow> heap \<Rightarrow> node_id list \<Rightarrow> string \<Rightarrow> node_id list option" where
  "elements_by_tag k h [] name = Some []"
| "elements_by_tag 0 h (n # ns) name = None"
| "elements_by_tag (Suc k) h (n # ns) name =
     (case elements_by_tag k h (childNodes (h ! n)) name of
        None \<Rightarrow> None
      | Some below \<Rightarrow>
          (case elements_by_tag (Suc k) h ns name of
             None \<Rightarrow> None
           | Some rest \<Rightarrow>
               Some ((if nodeType (h ! n) = Element_node \<and> (name = ''*'' \<or> nodeName (h ! n) = name)
                      then [n] else []) @ below @ rest)))"

definition getElementsByTagName :: "heap \<Rightarrow> node_id \<Rightarrow> string \<Rightarrow> py_error + node_id list" where
  "getElementsByTagName h n name =
     (case elements_by_tag (length h) h (childNodes (h ! n)) name of
        None \<Rightarrow> Inl NoFuel
      | Some ns \<Rightarrow> Inr ns)"

subsection \<open>The flow references\<close>

definition FLOW_REFERENCES :: "(string \<times> string) list" where
  "FLOW_REFERENCES =
     [(''text:p'', ''text:p''),
      (''paragraph'', ''text:p''),
      (''before::paragraph'', ''text:p''),
      (''after::paragraph'', ''text:p''),
      (''table:table-row'', ''table:table-row''),
      (''table-row'', ''table:table-row''),
      (''row'', ''table:table-row''),
      (''before::table-row'', ''table:table-row''),
      (''after::table-row'', ''table:table-row''),
      (''before::row'', ''table:table-row''),
      (''after::row'', ''table:table-row''),
      (''table:table-cell'', ''table:table-cell''),
      (''table-cell'', ''table:table-cell''),
      (''cell'', ''table:table-cell''),
      (''before::table-cell'', ''table:table-cell''),
      (''after::table-cell'', ''table:table-cell''),
      (''before::cell'', ''table:table-cell''),
      (''after::cell'', ''table:table-cell'')]"

definition SUPPORTED_FIELD_REFERECES :: "string list" where
  "SUPPORTED_FIELD_REFERECES = [''text:p'', ''table:table-row'', ''table:table-cell'']"

subsection \<open>Walking up the tree\<close>

text \<open>
  \<^verbatim>\<open>node_parents\<close>. Every minidom node has the attribute \<^verbatim>\<open>parentNode\<close>, so the test
  \<^verbatim>\<open>hasattr(node, 'parentNode')\<close> holds for every node and the branch returning \<^verbatim>\<open>None\<close>
  is never taken: at a node without a parent, \<^verbatim>\<open>node.parentNode.nodeName\<close> raises
  \<^verbatim>\<open>AttributeError\<close>. The fuel bounds the number of steps; \<open>NoFuel\<close> stands for a walk
  that does not end.
\<close>

fun node_parents :: "nat \<Rightarrow> heap \<Rightarrow> node_id \<Rightarrow> string \<Rightarrow> py_error + node_id" where
  "node_parents 0 h n parent_type = Inl NoFuel"
| "node_parents (Suc k) h n parent_type =
     (case parentNode (h ! n) of
        None \<Rightarrow> Inl AttributeError
      | Some p \<Rightarrow>
          if lower (nodeName (h ! p)) = parent_type then Inr p
          else node_parents k h p parent_type)"

text \<open>\<^verbatim>\<open>inc_node_fields_count\<close>\<close>

datatype field_type = Variable | Block

definition count_up :: "int option \<Rightarrow> int option" where
  "count_up c = Some ((case c of None \<Rightarrow> 0 | Some n \<Rightarrow> n) + 1)"

definition settle :: "int option \<Rightarrow> int option" where
  "settle c = Some (case c of None \<Rightarrow> 0 | Some n \<Rightarrow> n)"

definition inc_counts :: "field_type \<Rightarrow> node \<Rightarrow> node" where
  "inc_counts t nd =
     nd\<lparr>secretary_field_count := count_up (secretary_field_count nd),
        secretary_variable_count :=
          (if t = Variable then count_up (secretary_variable_count nd)
           else settle (secretary_variable_count nd)),
        secretary_block_count :=
          (if t = Variable then settle (secretary_block_count nd)
           else count_up (secretary_block_count nd))\<rparr>"

fun inc_node_fields_count :: "nat \<Rightarrow> heap \<Rightarrow> node_id option \<Rightarrow> field_type \<Rightarrow> py_error + heap" where
  "inc_node_fields_count k h None t = Inr h"
| "inc_node_fields_count 0 h (Some n) t = Inl NoFuel"
| "inc_node_fields_count (Suc k) h (Some n) t =
     inc_node_fields_count k (h[n := inc_counts t (h ! n)]) (parentNode (h ! n)) t"

text \<open>
  The hoist loop of \<^verbatim>\<open>prepare_template_tags\<close>:
  \<^verbatim>\<open>while field.parentNode.secretary_field_count <= 1: field = field.parentNode\<close>.
  Reading the counter of \<^verbatim>\<open>None\<close>, or of a node that has none, raises \<^verbatim>\<open>AttributeError\<close>.
\<close>

fun hoist :: "nat \<Rightarrow> heap \<Rightarrow> node_id \<Rightarrow> py_error + node_id" where
  "hoist 0 h field = Inl NoFuel"
| "hoist (Suc k) h field =
     (case parentNode (h ! field) of
        None \<Rightarrow> Inl AttributeError
      | Some p \<Rightarrow>
          (case secretary_field_count (h ! p) of
             None \<Rightarrow> Inl AttributeError
           | Some c \<Rightarrow> if c \<le> 1 then hoist k h p else Inr field))"

text \<open>The ancestors of a node, nearest first; \<open>None\<close> when the fuel does not reach a root.\<close>

fun ancestors :: "nat \<Rightarrow> heap \<Rightarrow> node_id \<Rightarrow> node_id list option" where
  "ancestors 0 h n = None"
| "ancestors (Suc k) h n =
     (case parentNode (h ! n) of
        None \<Rightarrow> Some []
      | Some p \<Rightarrow> map_option (\<lambda>as. p # as) (ancestors k h p))"

subsection \<open>\<^verbatim>\<open>prepare_template_tags\<close>\<close>

text \<open>\<^verbatim>\<open>r'(\{.*?\}*})'\<close>, \<^verbatim>\<open>r'(^\{\%.*?\%\}*})$'\<close> and \<^verbatim>\<open>r'\|markdown'\<close>\<close>

definition template_pattern :: "re_item list" where
  "template_pattern = [One (Lit CHR ''{''), Lazy Dot, Greedy (Lit CHR ''}''), One (Lit CHR ''}'')]"

definition block_pattern :: "re_item list" where
  "block_pattern =
     [Bol, One (Lit CHR ''{''), One (Lit CHR ''%''), Lazy Dot, One (Lit CHR ''%''),
      Greedy (Lit CHR ''}''), One (Lit CHR ''}''), Eol]"

definition markdown_pattern :: "re_item list" where
  "markdown_pattern = map (\<lambda>c. One (Lit c)) ''|markdown''"

text \<open>\<^verbatim>\<open>field.childNodes[0].data.replace('\n', '')\<close>: only character data has \<^verbatim>\<open>data\<close>.\<close>

definition field_content :: "heap \<Rightarrow> node_id \<Rightarrow> py_error + string" where
  "field_content h field =
     (case childNodes (h ! field) of
        [] \<Rightarrow> Inl IndexError
      | c # cs \<Rightarrow>
          if nodeType (h ! c) = Text_node then Inr (replace_newline [] (data (h ! c)))
          else Inl AttributeError)"

definition is_template :: "string \<Rightarrow> bool" where
  "is_template content = re_search False True template_pattern content"

definition is_block_tag :: "string \<Rightarrow> bool" where
  "is_block_tag content = re_search False True block_pattern (strip content)"

definition is_markdown :: "string \<Rightarrow> bool" where
  "is_markdown content = re_search False True markdown_pattern content"

text \<open>The body of the first loop: count one field.\<close>

definition count_field :: "heap \<Rightarrow> node_id \<Rightarrow> py_error + heap" where
  "count_field h field =
     (if \<not> hasChildNodes h field then Inr h
      else on_success (field_content h field) (\<lambda>content.
        if \<not> is_template content then Inr h
        else inc_node_fields_count (length h) h (parentNode (h ! field))
               (if \<not> is_block_tag content then Variable else Block)))"

fun count_fields :: "heap \<Rightarrow> node_id list \<Rightarrow> py_error + heap" where
  "count_fields h [] = Inr h"
| "count_fields h (field # field_list) = on_success (count_field h field) (\<lambda>h1. count_fields h1 field_list)"

definition create_text_node :: "heap \<Rightarrow> string \<Rightarrow> heap \<times> node_id" where
  "create_text_node h text = createTextNode h text"

definition create_text_span_node :: "heap \<Rightarrow> string \<Rightarrow> py_error + heap \<times> node_id" where
  "create_text_span_node h content =
     (case createElement h ''text:span'' of (h1, span) \<Rightarrow>
        (case create_text_node h1 content of (h2, text_node) \<Rightarrow>
           on_success (appendChild h2 span text_node) (\<lambda>h3. Inr (h3, span))))"

text \<open>
  The destination of a field and the node that replaces it: the new heap, the node
  \<^verbatim>\<open>field\<close> is bound to afterwards, and \<^verbatim>\<open>jinja_tag_node\<close>.
\<close>

definition destination ::
  "heap \<Rightarrow> node_id \<Rightarrow> string \<Rightarrow> string \<Rightarrow> py_error + heap \<times> node_id \<times> node_id" where
  "destination h field content field_reference =
     (if field_reference = [] then
        (if is_block_tag content then
           on_success (hoist (length h) h field) (\<lambda>dest.
             case create_text_node h content of (h1, jinja_tag_node) \<Rightarrow>
               Inr (h1, dest, jinja_tag_node))
         else
           on_success (create_text_span_node h content) (\<lambda>(h1, jinja_tag_node).
             Inr (h1, field, jinja_tag_node)))
      else
        (let odt_reference =
               (case map_of FLOW_REFERENCES (strip field_reference) of
                  None \<Rightarrow> field_reference
                | Some r \<Rightarrow> r)
         in on_success
              (if odt_reference \<in> set SUPPORTED_FIELD_REFERECES
               then node_parents (length h) h field odt_reference
               else Inr field)
              (\<lambda>dest.
                case create_text_node h content of (h1, jinja_tag_node) \<Rightarrow>
                  Inr (h1, dest, jinja_tag_node))))"

text \<open>Insertion of the replacement before or after the destination.\<close>

definition place ::
  "heap \<Rightarrow> node_id \<Rightarrow> node_id \<Rightarrow> string \<Rightarrow> py_error + heap" where
  "place h dest jinja_tag_node field_reference =
     (case parentNode (h ! dest) of
        None \<Rightarrow> Inl AttributeError
      | Some parent \<Rightarrow>
          if \<not> startswith field_reference ''after::''
          then insertBefore h parent jinja_tag_node (Some dest)
          else if lastChild h parent = Some dest
               then appendChild h parent jinja_tag_node
               else insertBefore h parent jinja_tag_node (nextSibling h dest))"

text \<open>Removal: of the paragraph of the original field for a \<^verbatim>\<open>before::\<close> or \<^verbatim>\<open>after::\<close>
  reference, of the destination otherwise; its parent is read before the insertion in
  the second case.\<close>

definition remove_field ::
  "heap \<Rightarrow> node_id option \<Rightarrow> node_id \<Rightarrow> node_id \<Rightarrow> string \<Rightarrow> py_error + heap" where
  "remove_field h parent dest keep_field field_reference =
     (if startswith field_reference ''after::'' \<or> startswith field_reference ''before::''
      then on_success (node_parents (length h) h keep_field ''text:p'') (\<lambda>paragraph.
             case parentNode (h ! paragraph) of
               None \<Rightarrow> Inl AttributeError
             | Some p \<Rightarrow> removeChild h p paragraph)
      else (case parent of
              None \<Rightarrow> Inl AttributeError
            | Some p \<Rightarrow> removeChild h p dest))"

text \<open>The body of the second loop: promote one field.\<close>

definition promote_field :: "heap \<Rightarrow> node_id \<Rightarrow> py_error + heap" where
  "promote_field h field =
     (if \<not> hasChildNodes h field then Inr h
      else on_success (field_content h field) (\<lambda>content.
        if \<not> is_template content then Inr h
        else
          (let field_reference =
                 (if is_markdown content then ''text:p''
                  else getAttribute h field ''text:description'')
           in on_success (destination h field content field_reference) (\<lambda>(h1, dest, jinja_tag_node).
                on_success (place h1 dest jinja_tag_node field_reference) (\<lambda>h2.
                  remove_field h2 (parentNode (h1 ! dest)) dest field field_reference)))))"

fun promote_fields :: "heap \<Rightarrow> node_id list \<Rightarrow> py_error + heap" where
  "promote_fields h [] = Inr h"
| "promote_fields h (field # field_list) =
     on_success (promote_field h field) (\<lambda>h1. promote_fields h1 field_list)"

definition prepare_template_tags :: "heap \<Rightarrow> node_id \<Rightarrow> py_error + heap" where
  "prepare_template_tags h xml_document =
     on_success (getElementsByTagName h xml_document ''text:text-input'') (\<lambda>field_list.
       on_success (count_fields h field_list) (\<lambda>h1. promote_fields h1 field_list))"

text \<open>The \<open>i\<close>-th ancestor of a node (the node itself for \<open>i = 0\<close>).\<close>

fun up :: "heap \<Rightarrow> nat \<Rightarrow> node_id \<Rightarrow> node_id option" where
  "up h 0 n = Some n"
| "up h (Suc i) n = (case parentNode (h ! n) of None \<Rightarrow> None | Some p \<Rightarrow> up h i p)"

text \<open>A node that the annotation pass has counted at most once, and one that two or
  more fields share.\<close>

definition single :: "heap \<Rightarrow> node_id \<Rightarrow> bool" where
  "single h a = (case secretary_field_count (h ! a) of None \<Rightarrow> False | Some c \<Rightarrow> c \<le> 1)"

definition shared :: "heap \<Rightarrow> node_id \<Rightarrow> bool" where
  "shared h a = (case secretary_field_count (h ! a) of None \<Rightarrow> False | Some c \<Rightarrow> 2 \<le> c)"

subsection \<open>Concrete documents\<close>

definition document :: "node_id list \<Rightarrow> node" where
  "document cs = (new_node Document_node ''#document'' [])\<lparr>childNodes := cs\<rparr>"

definition element :: "string \<Rightarrow> (string \<times> string) list \<Rightarrow> node_id list \<Rightarrow> node_id \<Rightarrow> node" where
  "element name attrs cs p =
     (new_node Element_node name [])\<lparr>attributes := attrs, childNodes := cs, parentNode := Some p\<rparr>"

definition text_node :: "string \<Rightarrow> node_id \<Rightarrow> node" where
  "text_node s p = (new_node Text_node ''#text'' s)\<lparr>parentNode := Some p\<rparr>"

text \<open>A document whose only field is a block tag without scope reference:
  \<^verbatim>\<open><office:text><text:p><text:text-input>{% if x %}</text:text-input></text:p></office:text>\<close>\<close>

definition lonely_block :: heap where
  "lonely_block =
     [document [1],
      element ''office:text'' [] [2] 0,
      element ''text:p'' [] [3] 1,
      element ''text:text-input'' [] [4] 2,
      text_node ''{% if x %}'' 3]"

text \<open>The counters the annotation pass leaves on a node: total, variable, block.\<close>

definition counted :: "int \<Rightarrow> int \<Rightarrow> int \<Rightarrow> node \<Rightarrow> node" where
  "counted f v b nd =
     nd\<lparr>secretary_field_count := Some f, secretary_variable_count := Some v,
        secretary_block_count := Some b\<rparr>"

definition lonely_block_counted :: heap where
  "lonely_block_counted =
     [counted 1 0 1 (document [1]),
      counted 1 0 1 (element ''office:text'' [] [2] 0),
      counted 1 0 1 (element ''text:p'' [] [3] 1),
      element ''text:text-input'' [] [4] 2,
      text_node ''{% if x %}'' 3]"

text \<open>Two paragraphs, each with one block tag without scope reference.\<close>

definition two_blocks :: heap where
  "two_blocks =
     [document [1],
      element ''office:text'' [] [2, 5] 0,
      element ''text:p'' [] [3] 1,
      element ''text:text-input'' [] [4] 2,
      text_node ''{% for x in xs %}'' 3,
      element ''text:p'' [] [6] 1,
      element ''text:text-input'' [] [7] 5,
      text_node ''{% endfor %}'' 6]"

definition two_blocks_counted :: heap where
  "two_blocks_counted =
     [counted 2 0 2 (document [1]),
      counted 2 0 2 (element ''office:text'' [] [2, 5] 0),
      counted 1 0 1 (element ''text:p'' [] [3] 1),
      element ''text:text-input'' [] [4] 2,
      text_node ''{% for x in xs %}'' 3,
      counted 1 0 1 (element ''text:p'' [] [6] 1),
      element ''text:text-input'' [] [7] 5,
      text_node ''{% endfor %}'' 6]"












text \<open>A field scoped to a table row that stands in no table, and a field in a heading with
  a \<^verbatim>\<open>before::\<close> reference that the table of flow references does not hold.\<close>

definition row_without_table :: heap where
  "row_without_table =
     [document [1],
      element ''office:text'' [] [2] 0,
      element ''text:p'' [] [3] 1,
      element ''text:text-input'' [(''text:description'', ''row'')] [4] 2,
      text_node ''{% for r in rows %}'' 3]"

definition unknown_before :: heap where
  "unknown_before =
     [document [1],
      element ''office:text'' [] [2] 0,
      element ''text:h'' [] [3] 1,
      element ''text:text-input'' [(''text:description'', ''before::chapter'')] [4] 2,
      text_node ''{{ title }}'' 3]"

subsection \<open>Styles for converted markdown\<close>

text \<open>
  For the style bookkeeping of \<^verbatim>\<open>markdown_filter\<close> the content tree is seen through its
  registry: the list of children of the first \<^verbatim>\<open>office:automatic-styles\<close> element, \<open>None\<close>
  when the tree has no such element (then \<^verbatim>\<open>getElementsByTagName(...)[0]\<close> raises
  \<^verbatim>\<open>IndexError\<close>).
\<close>

datatype xml = Element_xml string "(string \<times> string) list" "xml list" | Text_xml string

type_synonym registry = "xml list option"

text \<open>Assignment to a key of a dictionary, and \<^verbatim>\<open>setAttribute\<close> on a list of attributes.\<close>

fun dict_set :: "('k \<times> 'v) list \<Rightarrow> 'k \<Rightarrow> 'v \<Rightarrow> ('k \<times> 'v) list" where
  "dict_set [] k v = [(k, v)]"
| "dict_set ((k', v') # kvs) k v = (if k' = k then (k, v) # kvs else (k', v') # dict_set kvs k v)"

fun set_all :: "string \<Rightarrow> (string \<times> string) list \<Rightarrow> (string \<times> string) list \<Rightarrow> (string \<times> string) list" where
  "set_all prefix [] attrs = attrs"
| "set_all prefix ((k, v) # kvs) attrs = set_all prefix kvs (dict_set attrs (prefix @ k) v)"

text \<open>
  The table \<^verbatim>\<open>transform_map\<close> of the module \<^verbatim>\<open>markdown_map\<close> is not part of the sources; it
  is a parameter, a list of tags with their entries. An entry has the keys that
  \<^verbatim>\<open>markdown_filter\<close> reads; the optional ones are \<open>None\<close> when absent. A style is taken to
  have its keys \<^verbatim>\<open>name\<close> and \<^verbatim>\<open>properties\<close>, which the filter reads without a default.
\<close>

record style_spec =
  style_name :: string
  style_attrs :: "(string \<times> string) list option"
  style_properties :: "(string \<times> string) list"

record tag_entry =
  replace_with :: string
  style_attributes :: "(string \<times> string) list option"
  tag_attributes :: "(string \<times> string) list option"
  style :: "style_spec option"

text \<open>\<^verbatim>\<open>get_style_by_name\<close>: only elements have \<^verbatim>\<open>hasAttribute\<close>.\<close>

fun find_style :: "xml list \<Rightarrow> string \<Rightarrow> py_error + xml option" where
  "find_style [] n = Inr None"
| "find_style (Text_xml d # cs) n = Inl AttributeError"
| "find_style (Element_xml t attrs kids # cs) n =
     (if map_of attrs ''style:name'' \<noteq> None \<and> map_of attrs ''style:name'' = Some n
      then Inr (Some (Element_xml t attrs kids))
      else find_style cs n)"

definition get_style_by_name :: "registry \<Rightarrow> string \<Rightarrow> py_error + xml option" where
  "get_style_by_name reg n =
     (case reg of
        None \<Rightarrow> Inl IndexError
      | Some auto_styles \<Rightarrow> if auto_styles = [] then Inr None else find_style auto_styles n)"

text \<open>
  \<^verbatim>\<open>insert_style_in_content(self, style_name, attributes=None, **style_properties)\<close>: the
  new registry and the new style node. The caller passes the name and the attributes by
  position and the properties of the table as keyword arguments, so a property whose key
  is the name of one of the three parameters makes the call itself raise \<^verbatim>\<open>TypeError\<close>.
\<close>

definition insert_style_in_content ::
  "registry \<Rightarrow> string \<Rightarrow> (string \<times> string) list option \<Rightarrow> (string \<times> string) list
     \<Rightarrow> py_error + registry \<times> xml" where
  "insert_style_in_content reg n attrs props =
     (if list_ex (\<lambda>kv. fst kv \<in> set [''self'', ''style_name'', ''attributes'']) props
      then Inl TypeError
      else
        (case reg of
           None \<Rightarrow> Inl IndexError
         | Some auto_styles \<Rightarrow>
             (let a0 = [(''style:name'', n), (''style:family'', ''text''),
                        (''style:parent-style-name'', ''Standard'')];
                  a1 = (case attrs of None \<Rightarrow> a0 | Some kvs \<Rightarrow> set_all ''style:'' kvs a0);
                  kids = (if props = [] then []
                          else [Element_xml ''style:text-properties'' (set_all [] props []) []]);
                  style_node = Element_xml ''style:style'' a1 kids
              in Inr (Some (auto_styles @ [style_node]), style_node))))"

text \<open>The style step of the loop body of \<^verbatim>\<open>markdown_filter\<close>, on the cache of the call
  and the registry.\<close>

definition ensure_style ::
  "tag_entry \<Rightarrow> (string \<times> xml) list \<times> registry \<Rightarrow> py_error + (string \<times> xml) list \<times> registry" where
  "ensure_style e st =
     (case style e of
        None \<Rightarrow> Inr st
      | Some sp \<Rightarrow>
          if map_of (fst st) (style_name sp) \<noteq> None then Inr st
          else on_success (get_style_by_name (snd st) (style_name sp)) (\<lambda>found.
                 case found of
                   Some style_node \<Rightarrow> Inr st
                 | None \<Rightarrow>
                     on_success
                       (insert_style_in_content (snd st) (style_name sp) (style_attrs sp)
                          (style_properties sp))
                       (\<lambda>(reg, style_node).
                          Inr (dict_set (fst st) (style_name sp) style_node, reg))))"

text \<open>
  The two loops, as far as they touch the styles: for each tag of the table, for each
  element of the parsed HTML with that tag (\<open>html tag\<close> is their number when the loop
  reaches the tag), the style step.
\<close>

fun for_html_nodes ::
  "nat \<Rightarrow> tag_entry \<Rightarrow> (string \<times> xml) list \<times> registry \<Rightarrow> py_error + (string \<times> xml) list \<times> registry" where
  "for_html_nodes 0 e st = Inr st"
| "for_html_nodes (Suc n) e st = on_success (ensure_style e st) (for_html_nodes n e)"

fun for_tags ::
  "(string \<times> tag_entry) list \<Rightarrow> (string \<Rightarrow> nat) \<Rightarrow> (string \<times> xml) list \<times> registry
     \<Rightarrow> py_error + (string \<times> xml) list \<times> registry" where
  "for_tags [] html st = Inr st"
| "for_tags ((tag, e) # rest) html st =
     on_success (for_html_nodes (html tag) e st) (for_tags rest html)"

definition markdown_filter_styles ::
  "(string \<times> tag_entry) list \<Rightarrow> (string \<Rightarrow> nat) \<Rightarrow> registry \<Rightarrow> py_error + registry" where
  "markdown_filter_styles transform_map html reg =
     on_success (for_tags transform_map html ([], reg)) (\<lambda>st. Inr (snd st))"

text \<open>The invocations of the filter within one render, one after the other.\<close>

fun markdown_calls ::
  "(string \<times> tag_entry) list \<Rightarrow> (string \<Rightarrow> nat) list \<Rightarrow> registry \<Rightarrow> py_error + registry" where
  "markdown_calls transform_map [] reg = Inr reg"
| "markdown_calls transform_map (html # calls) reg =
     on_success (markdown_filter_styles transform_map html reg) (markdown_calls transform_map calls)"

text \<open>How often a style name occurs in the registry, the names a sequence of calls
  requires, and a table whose style attributes do not rebind the name.\<close>

fun names_style :: "string \<Rightarrow> xml \<Rightarrow> bool" where
  "names_style n (Element_xml t attrs kids) = (map_of attrs ''style:name'' = Some n)"
| "names_style n (Text_xml d) = False"

definition count_style :: "xml list \<Rightarrow> string \<Rightarrow> nat" where
  "count_style auto_styles n = length (filter (names_style n) auto_styles)"

definition required :: "(string \<times> tag_entry) list \<Rightarrow> (string \<Rightarrow> nat) list \<Rightarrow> string list" where
  "required transform_map calls =
     concat (map (\<lambda>html.
       concat (map (\<lambda>(tag, e). case style e of
                                   None \<Rightarrow> []
                                 | Some sp \<Rightarrow> if 0 < html tag then [style_name sp] else [])
                 transform_map)) calls)"

definition entry_ok :: "tag_entry \<Rightarrow> bool" where
  "entry_ok e =
     (case style e of
        None \<Rightarrow> True
      | Some sp \<Rightarrow> (case style_attrs sp of None \<Rightarrow> True | Some kvs \<Rightarrow> map_of kvs ''name'' = None))"

definition table_ok :: "(string \<times> tag_entry) list \<Rightarrow> bool" where
  "table_ok transform_map = list_all (\<lambda>(tag, e). entry_ok e) transform_map"

subsection \<open>Well-formed heaps\<close>









text \<open>Bookkeeping for the style registry: it grows by first occurrences only, and what
  the cache of a call holds is in the registry.\<close>

definition grows :: "xml list \<Rightarrow> xml list \<Rightarrow> bool" where
  "grows ch ch' = (\<forall>n. count_style ch n \<le> count_style ch' n \<and> count_style ch' n \<le> max 1 (count_style ch n))"

definition cached :: "(string \<times> xml) list \<Rightarrow> xml list \<Rightarrow> bool" where
  "cached cache ch = (\<forall>n. map_of cache n \<noteq> None \<longrightarrow> 1 \<le> count_style ch n)"

text \<open>A table with one styled tag, a call that converts two \<^verbatim>\<open>strong\<close> elements and a
  paragraph, and a registry that holds one other style.\<close>

definition bold_map :: "(string \<times> tag_entry) list" where
  "bold_map =
     [(''p'', \<lparr>replace_with = ''text:p'', style_attributes = Some [(''style-name'', ''Standard'')],
              tag_attributes = None, style = None\<rparr>),
      (''strong'', \<lparr>replace_with = ''text:span'',
                   style_attributes = Some [(''style-name'', ''markdown_bold'')],
                   tag_attributes = None,
                   style = Some \<lparr>style_name = ''markdown_bold'', style_attrs = None,
                                 style_properties = [(''fo:font-weight'', ''bold'')]\<rparr>\<rparr>)]"

definition two_strong :: "string \<Rightarrow> nat" where
  "two_strong tag = (if tag = ''strong'' then 2 else if tag = ''p'' then 1 else 0)"

definition one_style :: "xml list" where
  "one_style = [Element_xml ''style:style'' [(''style:name'', ''P1''), (''style:family'', ''paragraph'')] []]"

definition bold_style :: xml where
  "bold_style =
     Element_xml ''style:style''
       [(''style:name'', ''markdown_bold''), (''style:family'', ''text''),
        (''style:parent-style-name'', ''Standard'')]
       [Element_xml ''style:text-properties'' [(''fo:font-weight'', ''bold'')] []]"

subsection \<open>The render pipeline\<close>

text \<open>
  The template of a \<^verbatim>\<open>Render\<close> is a path, an open file, or whatever else the caller
  passes; \<open>File_type\<close> is the builtin type \<^verbatim>\<open>file\<close> of Python 2. The collaborators of the
  pipeline are parameters: \<open>read_archive\<close> (the names and contents \<^verbatim>\<open>zipfile\<close> reads from
  the template), \<open>parseString\<close> (allocates the parsed document in the heap),
  \<open>toxml\<close>, \<open>template_render\<close> (the templating engine on a template text and the
  variables; its filters can change the heap), and \<open>write_archive\<close> (the bytes of the
  archive with the given entries).
\<close>

datatype template_input = Path string | Handle string | File_type

record 'k world =
  read_archive :: "template_input \<Rightarrow> py_error + (string \<times> string) list"
  parseString :: "string \<Rightarrow> heap \<Rightarrow> py_error + heap \<times> node_id"
  toxml :: "heap \<Rightarrow> node_id \<Rightarrow> string"
  template_render :: "string \<Rightarrow> 'k \<Rightarrow> heap \<Rightarrow> py_error + string \<times> heap"
  write_archive :: "(string \<times> string) list \<Rightarrow> string"

text \<open>The attributes of a \<^verbatim>\<open>Render\<close> instance; \<open>content\<close> and \<open>styles\<close> are \<open>None\<close> until
  \<^verbatim>\<open>unpack_template\<close> sets them. The dictionary \<open>file_list\<close> is kept in insertion order.\<close>

record render_state =
  template :: template_input
  file_list :: "(string \<times> string) list"
  content :: "node_id option"
  styles :: "node_id option"
  heap :: heap

definition Render :: "template_input \<Rightarrow> render_state" where
  "Render t = \<lparr>template = t, file_list = [], content = None, styles = None, heap = []\<rparr>"

text \<open>\<^verbatim>\<open>s.encode('ascii', 'xmlcharrefreplace')\<close>\<close>

fun decimal :: "nat \<Rightarrow> string" where
  "decimal n =
     (if n < 10 then [char_of (48 + n)] else decimal (n div 10) @ [char_of (48 + n mod 10)])"

definition encode_ascii :: "string \<Rightarrow> string" where
  "encode_ascii s =
     concat (map (\<lambda>c. if (of_char c :: nat) < 128 then [c]
                       else ''&#'' @ decimal (of_char c) @ '';'') s)"

fun unpack_files :: "'k world \<Rightarrow> render_state \<Rightarrow> (string \<times> string) list \<Rightarrow> py_error + render_state" where
  "unpack_files w r [] = Inr r"
| "unpack_files w r ((filename, file_contents) # rest) =
     (let r1 = r\<lparr>file_list := dict_set (file_list r) filename file_contents\<rparr>
      in if filename = ''content.xml''
         then on_success (parseString w file_contents (heap r1)) (\<lambda>(h, d).
                unpack_files w (r1\<lparr>heap := h, content := Some d\<rparr>) rest)
         else if filename = ''styles.xml''
         then on_success (parseString w file_contents (heap r1)) (\<lambda>(h, d).
                unpack_files w (r1\<lparr>heap := h, styles := Some d\<rparr>) rest)
         else unpack_files w r1 rest)"

definition unpack_template :: "'k world \<Rightarrow> render_state \<Rightarrow> py_error + render_state" where
  "unpack_template w r = on_success (read_archive w (template r)) (unpack_files w r)"

text \<open>\<^verbatim>\<open>pack_document\<close>: the entries written to the new archive, in order.\<close>

fun pack_entries ::
  "'k world \<Rightarrow> render_state \<Rightarrow> (string \<times> string) list \<Rightarrow> py_error + (string \<times> string) list" where
  "pack_entries w r [] = Inr []"
| "pack_entries w r ((filename, c) # rest) =
     on_success
       (if filename \<in> set [''content.xml'', ''styles.xml'']
        then (case styles r of
                None \<Rightarrow> Inl AttributeError
              | Some s \<Rightarrow> Inr (encode_ascii (toxml w (heap r) s)))
        else Inr c)
       (\<lambda>c1. on_success (pack_entries w r rest) (\<lambda>es. Inr ((filename, c1) # es)))"

definition pack_document :: "'k world \<Rightarrow> render_state \<Rightarrow> py_error + (string \<times> string) list" where
  "pack_document w r = pack_entries w r (file_list r)"

text \<open>\<^verbatim>\<open>replaceChild\<close> and \<^verbatim>\<open>getElementsByTagName(name)[0]\<close>\<close>

fun replace_first :: "node_id list \<Rightarrow> node_id \<Rightarrow> node_id \<Rightarrow> node_id list" where
  "replace_first [] new old = []"
| "replace_first (c # cs) new old = (if c = old then new # cs else c # replace_first cs new old)"

definition replaceChild :: "heap \<Rightarrow> node_id \<Rightarrow> node_id \<Rightarrow> node_id \<Rightarrow> py_error + heap" where
  "replaceChild h self newChild oldChild =
     (if \<not> child_allowed (nodeType (h ! self)) (nodeType (h ! newChild)) then Inl HierarchyRequestErr
      else if newChild = oldChild then Inr h
      else on_success (detach h newChild) (\<lambda>h1.
        if oldChild \<in> set (childNodes (h1 ! self))
        then Inr (((h1[self := (h1 ! self)\<lparr>childNodes := replace_first (childNodes (h1 ! self)) newChild oldChild\<rparr>])
                     [newChild := (h1 ! newChild)\<lparr>parentNode := Some self\<rparr>])
                     [oldChild := (h1 ! oldChild)\<lparr>parentNode := None\<rparr>])
        else Inl NotFoundErr))"

definition first_by_tag :: "heap \<Rightarrow> node_id \<Rightarrow> string \<Rightarrow> py_error + node_id" where
  "first_by_tag h n name =
     on_success (getElementsByTagName h n name) (\<lambda>ns.
       case ns of [] \<Rightarrow> Inl IndexError | x # xs \<Rightarrow> Inr x)"

text \<open>Promotion, templating and line breaks for one of the two trees.\<close>

definition render_tree :: "'k world \<Rightarrow> heap \<Rightarrow> node_id \<Rightarrow> 'k \<Rightarrow> py_error + string \<times> heap" where
  "render_tree w h doc kwargs =
     on_success (prepare_template_tags h doc) (\<lambda>h1.
       on_success (template_render w (unescape_gt_lt (toxml w h1 doc)) kwargs h1) (\<lambda>(result, h2).
         Inr (replace_newline ''<text:line-break/>'' result, h2)))"

definition render :: "'k world \<Rightarrow> render_state \<Rightarrow> 'k \<Rightarrow> py_error + string" where
  "render w r kwargs =
     on_success (unpack_template w r) (\<lambda>r1.
       case content r1 of
         None \<Rightarrow> Inl AttributeError
       | Some cdoc \<Rightarrow>
           on_success (render_tree w (heap r1) cdoc kwargs) (\<lambda>(result, h2).
           on_success (first_by_tag h2 cdoc ''office:body'') (\<lambda>original_body.
           on_success (parseString w (encode_ascii result) h2) (\<lambda>(h3, rdoc).
           on_success (first_by_tag h3 rdoc ''office:body'') (\<lambda>rendered_body.
           on_success (first_by_tag h3 cdoc ''office:document-content'') (\<lambda>document.
           on_success (replaceChild h3 document rendered_body original_body) (\<lambda>h4.
             case styles r1 of
               None \<Rightarrow> Inl AttributeError
             | Some sdoc \<Rightarrow>
                 on_success (render_tree w h4 sdoc kwargs) (\<lambda>(result, h6).
                 on_success (parseString w (encode_ascii result) h6) (\<lambda>(h7, sdoc1).
                 on_success (pack_document w (r1\<lparr>heap := h7, styles := Some sdoc1\<rparr>)) (\<lambda>entries.
                   Inr (write_archive w entries)))))))))))"

text \<open>\<^verbatim>\<open>render_template\<close>: the engine is built as \<^verbatim>\<open>Render(file)\<close>.\<close>

definition render_template :: "'k world \<Rightarrow> template_input \<Rightarrow> 'k \<Rightarrow> py_error + string" where
  "render_template w template_arg kwargs = render w (Render File_type) kwargs"

section \<open>Properties\<close>

subsection \<open>Unescaping of comparison operators\<close>

text \<open>
  C6. The claim: \<^verbatim>\<open>&gt;\<close> and \<^verbatim>\<open>&lt;\<close> are rewritten exactly when they stand inside a
  template delimiter span, and stay encoded outside every span. The code does otherwise:
  in \<^verbatim>\<open>{{a}}&gt;{{b}}\<close> the entity stands between two spans, and the greedy \<^verbatim>\<open>.*\<close> of the
  pattern runs from the first opening delimiter to the last closing one, so the entity
  is rewritten (in whichever order the two patterns are applied); and in
  \<^verbatim>\<open>{{ a &gt; b &gt; c }}\<close> only the last of the two entities inside the span is rewritten.
\<close>

theorem unescape_gt_lt_outside_span:
  "unescape_gt_lt ''{{a}}&gt;{{b}}'' = ''{{a}}>{{b}}''
   \<and> sub_each (rev unescape_entities) ''{{a}}&gt;{{b}}'' = ''{{a}}>{{b}}''
   \<and> unescape_gt_lt ''{{ a &gt; b &gt; c }}'' = ''{{ a &gt; b > c }}''"
  by code_simp

subsection \<open>The silent undefined value\<close>

lemma step_hooked:
  "hooked h a \<Longrightarrow> step h Undefined_silently a = Inr Undefined_silently"
  by (cases a) (simp_all add: getattr_undefined_def call_undefined_def undefined_silently_dict_def)

lemma evaluate_hooked:
  "list_all (hooked h) chain \<Longrightarrow> evaluate h Undefined_silently chain = Inr Undefined_silently"
  by (induction chain) (simp_all add: step_hooked)

text \<open>
  C8, as the code has it. For every finite chain of calls and of attribute accesses whose
  names normal lookup does not find (on the class or on its base), evaluation from an
  undefined value never raises and ends in an undefined value again, whose text form is
  the empty text.
\<close>

theorem undefined_chain_silent:
  "list_all (hooked h) chain \<Longrightarrow>
     evaluate h Undefined_silently chain = Inr Undefined_silently
     \<and> string_form h Undefined_silently = []"
  by (simp add: evaluate_hooked undefined_silently_dict_def)

theorem undefined_chain_silent_witness:
  "list_all (hooked plain_host) [Attr ''user'', Attr ''name'', Call [Text ''x''], Attr ''upper'']
   \<and> evaluate plain_host Undefined_silently
        [Attr ''user'', Attr ''name'', Call [Text ''x''], Attr ''upper''] = Inr Undefined_silently
   \<and> string_form plain_host Undefined_silently = []"
proof -
  have h: "list_all (hooked plain_host)
             [Attr ''user'', Attr ''name'', Call [Text ''x''], Attr ''upper'']"
    by (simp add: undefined_silently_dict_def plain_host_def)
  show ?thesis
    using h undefined_chain_silent [OF h] by simp
qed

text \<open>
  C8, as the claim states it, fails: the attribute \<^verbatim>\<open>silently_undefined\<close> of an undefined
  value is found on the class, so the access returns a bound method and not an undefined
  value; calling that method returns the empty text, which is no undefined value either.
\<close>

theorem undefined_chain_counterexample:
  "evaluate plain_host Undefined_silently [Attr ''silently_undefined'']
     = Inr (Bound_method Silently_undefined)
   \<and> evaluate plain_host Undefined_silently [Attr ''silently_undefined'', Call []]
     = Inr (Text [])"
  by (simp add: getattr_undefined_def undefined_silently_dict_def plain_host_def)

subsection \<open>The hoist loop\<close>

text \<open>
  C10. If the chain of ancestors of a field ends within the fuel and none of the
  ancestors carries a total field count of 2 or more, the hoist loop raises
  \<^verbatim>\<open>AttributeError\<close>: it reads the counter of the parent of the root, which is \<^verbatim>\<open>None\<close>.
\<close>

theorem hoist_past_root:
  "ancestors k h field = Some as \<Longrightarrow> list_all (\<lambda>a. \<not> shared h a) as \<Longrightarrow>
     hoist k h field = Inl AttributeError"
proof (induction k arbitrary: field as)
  case 0
  then show ?case by simp
next
  case (Suc k)
  show ?case
  proof (cases "parentNode (h ! field)")
    case None
    then show ?thesis by simp
  next
    case (Some p)
    with Suc.prems(1) obtain as' where as: "as = p # as'" "ancestors k h p = Some as'"
      by auto
    with Suc.prems(2) have p: "\<not> shared h p" and rest: "list_all (\<lambda>a. \<not> shared h a) as'"
      by simp_all
    from Suc.IH [OF as(2) rest] have "hoist k h p = Inl AttributeError" .
    with Some p show ?thesis
      by (auto simp: shared_def split: option.splits)
  qed
qed

text \<open>The document with a single block field: the annotation pass counts 1 on every
  ancestor, and \<^verbatim>\<open>prepare_template_tags\<close> raises.\<close>

theorem hoist_past_root_witness:
  "count_fields lonely_block [3] = Inr lonely_block_counted
   \<and> ancestors (length lonely_block_counted) lonely_block_counted 3 = Some [2, 1, 0]
   \<and> list_all (\<lambda>a. \<not> shared lonely_block_counted a) [2, 1, 0]
   \<and> hoist (length lonely_block_counted) lonely_block_counted 3 = Inl AttributeError
   \<and> prepare_template_tags lonely_block 0 = Inl AttributeError"
proof -
  have c: "count_fields lonely_block [3] = Inr lonely_block_counted"
    by code_simp
  have a: "ancestors (length lonely_block_counted) lonely_block_counted 3 = Some [2, 1, 0]"
    by code_simp
  have s: "list_all (\<lambda>a. \<not> shared lonely_block_counted a) [2, 1, 0]"
    by code_simp
  have p: "prepare_template_tags lonely_block 0 = Inl AttributeError"
    by code_simp
  from c a s p hoist_past_root [OF a s] show ?thesis
    by simp
qed

text \<open>
  C3, as the code has it. When the hoist loop ends with a destination, the destination is
  the field itself or one of its ancestors; every ancestor of the field up to and
  including the destination carries a count of at most 1, and it is the parent of the
  destination that carries a count of at least 2.
\<close>

theorem hoist_destination:
  "hoist k h field = Inr dest \<Longrightarrow>
     \<exists>i<k. up h i field = Some dest
       \<and> (\<forall>j. 1 \<le> j \<and> j \<le> i \<longrightarrow> (\<exists>a. up h j field = Some a \<and> single h a))
       \<and> (\<exists>p. up h (Suc i) field = Some p \<and> shared h p)"
proof (induction k arbitrary: field)
  case 0
  then show ?case by simp
next
  case (Suc k)
  from Suc.prems obtain p c where p: "parentNode (h ! field) = Some p"
    and c: "secretary_field_count (h ! p) = Some c"
    by (auto split: option.splits)
  show ?case
  proof (cases "c \<le> 1")
    case True
    with Suc.prems p c have "hoist k h p = Inr dest" by simp
    from Suc.IH [OF this] obtain i where i: "i < k" "up h i p = Some dest"
      and below: "\<forall>j. 1 \<le> j \<and> j \<le> i \<longrightarrow> (\<exists>a. up h j p = Some a \<and> single h a)"
      and above: "\<exists>q. up h (Suc i) p = Some q \<and> shared h q"
      by blast
    have "\<exists>a. up h j field = Some a \<and> single h a" if j: "1 \<le> j" "j \<le> Suc i" for j
    proof -
      from j obtain j' where j': "j = Suc j'" "j' \<le> i"
        by (cases j) simp_all
      have step: "up h (Suc j') field = up h j' p"
        using p by simp
      show ?thesis
      proof (cases "j' = 0")
        case True
        with j' step c \<open>c \<le> 1\<close> show ?thesis by (simp add: single_def)
      next
        case False
        with j' below have "\<exists>a. up h j' p = Some a \<and> single h a" by simp
        with j' step show ?thesis by simp
      qed
    qed
    with i above p show ?thesis
      by (intro exI [of _ "Suc i"]) simp
  next
    case False
    with Suc.prems p c have "dest = field" by simp
    with p c False show ?thesis
      by (intro exI [of _ 0]) (simp add: shared_def)
  qed
qed

theorem hoist_destination_witness:
  "count_fields two_blocks [3, 6] = Inr two_blocks_counted
   \<and> hoist (length two_blocks_counted) two_blocks_counted 3 = Inr 2
   \<and> (\<exists>i<length two_blocks_counted. up two_blocks_counted i 3 = Some 2
        \<and> (\<forall>j. 1 \<le> j \<and> j \<le> i \<longrightarrow>
              (\<exists>a. up two_blocks_counted j 3 = Some a \<and> single two_blocks_counted a))
        \<and> (\<exists>p. up two_blocks_counted (Suc i) 3 = Some p \<and> shared two_blocks_counted p))"
proof -
  have c: "count_fields two_blocks [3, 6] = Inr two_blocks_counted"
    by code_simp
  have d: "hoist (length two_blocks_counted) two_blocks_counted 3 = Inr 2"
    by code_simp
  from c d hoist_destination [OF d] show ?thesis
    by simp
qed

text \<open>
  C3, as the claim states it, fails: with one block field in each of two paragraphs, the
  destination of the first field is its paragraph, whose count is 1 and not at least 2;
  the count of 2 stands on the parent of the paragraph.
\<close>

theorem hoist_destination_counterexample:
  "count_fields two_blocks [3, 6] = Inr two_blocks_counted
   \<and> hoist (length two_blocks_counted) two_blocks_counted 3 = Inr 2
   \<and> secretary_field_count (two_blocks_counted ! 2) = Some 1
   \<and> parentNode (two_blocks_counted ! 2) = Some 1
   \<and> secretary_field_count (two_blocks_counted ! 1) = Some 2"
  by code_simp

subsection \<open>Scope references without a matching ancestor\<close>

text \<open>
  C4. The claim: a scope reference never makes \<^verbatim>\<open>prepare_template_tags\<close> raise; without
  an ancestor of the resolved tag the destination is the field itself. The code raises
  \<^verbatim>\<open>AttributeError\<close> in \<^verbatim>\<open>node_parents\<close>, both for a field scoped to a row outside every
  table and for a field with the unknown reference \<^verbatim>\<open>before::chapter\<close> outside every
  paragraph.
\<close>

theorem scope_reference_raises:
  "prepare_template_tags row_without_table 0 = Inl AttributeError
   \<and> node_parents (length row_without_table) row_without_table 3 ''table:table-row''
       = Inl AttributeError
   \<and> prepare_template_tags unknown_before 0 = Inl AttributeError"
  by code_simp

subsection \<open>Promotion after a cell\<close>


















subsection \<open>Widgets without a template expression\<close>














































subsection \<open>Styles of the markdown filter\<close>

lemma find_style_none: "find_style ch n = Inr None \<Longrightarrow> count_style ch n = 0"
  by (induction ch n rule: find_style.induct) (auto simp: count_style_def split: if_splits)

lemma find_style_some: "find_style ch n = Inr (Some x) \<Longrightarrow> 1 \<le> count_style ch n"
  by (induction ch n rule: find_style.induct) (auto simp: count_style_def split: if_splits)

lemma map_of_dict_set: "map_of (dict_set a k v) k' = (if k' = k then Some v else map_of a k')"
  by (induction a k v rule: dict_set.induct) auto

lemma map_of_set_all:
  "map_of kvs ''name'' = None \<Longrightarrow>
     map_of (set_all ''style:'' kvs a) ''style:name'' = map_of a ''style:name''"
proof (induction kvs arbitrary: a)
  case Nil
  then show ?case by simp
next
  case (Cons kv kvs)
  obtain k v where kv: "kv = (k, v)" by (cases kv)
  with Cons.prems have k: "k \<noteq> ''name''" and rest: "map_of kvs ''name'' = None"
    by (auto split: if_splits)
  from k have "''style:'' @ k \<noteq> ''style:name''" by simp
  with Cons.IH [OF rest] kv show ?case
    by (simp add: map_of_dict_set)
qed

lemma grows_refl: "grows ch ch"
  by (simp add: grows_def)

lemma grows_trans: "grows a b \<Longrightarrow> grows b c \<Longrightarrow> grows a c"
  unfolding grows_def
proof (intro allI conjI)
  fix n
  assume ab: "\<forall>n. count_style a n \<le> count_style b n \<and> count_style b n \<le> max 1 (count_style a n)"
    and bc: "\<forall>n. count_style b n \<le> count_style c n \<and> count_style c n \<le> max 1 (count_style b n)"
  from ab have 1: "count_style a n \<le> count_style b n" "count_style b n \<le> max 1 (count_style a n)" by simp_all
  from bc have 2: "count_style b n \<le> count_style c n" "count_style c n \<le> max 1 (count_style b n)" by simp_all
  from 1 2 show "count_style a n \<le> count_style c n" by linarith
  from 1 2 show "count_style c n \<le> max 1 (count_style a n)" by (simp add: max_def split: if_splits)
qed

lemma cached_grows: "cached cache ch \<Longrightarrow> grows ch ch' \<Longrightarrow> cached cache ch'"
  unfolding cached_def grows_def by (meson order_trans)

lemma insert_style_count:
  assumes "insert_style_in_content (Some ch) n attrs props = Inr (reg, node)"
    and "case attrs of None \<Rightarrow> True | Some kvs \<Rightarrow> map_of kvs ''name'' = None"
  shows "\<exists>ch'. reg = Some ch' \<and> (\<forall>m. count_style ch' m = count_style ch m + (if m = n then 1 else 0))"
proof -
  let ?a0 = "[(''style:name'', n), (''style:family'', ''text''), (''style:parent-style-name'', ''Standard'')]"
  let ?a1 = "(case attrs of None \<Rightarrow> ?a0 | Some kvs \<Rightarrow> set_all ''style:'' kvs ?a0)"
  have "map_of ?a1 ''style:name'' = Some n"
    using assms(2) by (cases attrs) (simp_all add: map_of_set_all)
  with assms(1) show ?thesis
    by (auto simp: insert_style_in_content_def count_style_def Let_def split: if_splits)
qed

lemma ensure_style_step:
  assumes "ensure_style e (cache, Some ch) = Inr (cache', reg')" and "entry_ok e" and "cached cache ch"
  shows "\<exists>ch'. reg' = Some ch' \<and> grows ch ch' \<and> cached cache' ch'
           \<and> (\<forall>sp. style e = Some sp \<longrightarrow> 1 \<le> count_style ch' (style_name sp))"
proof (cases "style e")
  case None
  with assms show ?thesis by (auto simp: ensure_style_def grows_refl)
next
  case (Some sp)
  show ?thesis
  proof (cases "map_of cache (style_name sp) \<noteq> None")
    case True
    with Some assms show ?thesis
      by (auto simp: ensure_style_def grows_refl cached_def)
  next
    case False
    with Some assms(1) obtain found where found: "get_style_by_name (Some ch) (style_name sp) = Inr found"
      by (cases "get_style_by_name (Some ch) (style_name sp)") (auto simp: ensure_style_def)
    show ?thesis
    proof (cases found)
      case (Some x)
      with found have "find_style ch (style_name sp) = Inr (Some x)"
        by (auto simp: get_style_by_name_def split: if_splits)
      then have "1 \<le> count_style ch (style_name sp)"
        by (rule find_style_some)
      with Some found False \<open>style e = Some sp\<close> assms show ?thesis
        by (auto simp: ensure_style_def grows_refl)
    next
      case None
      with found have "ch = [] \<or> find_style ch (style_name sp) = Inr None"
        by (auto simp: get_style_by_name_def split: if_splits)
      then have zero: "count_style ch (style_name sp) = 0"
      proof
        assume "ch = []"
        then show ?thesis by (simp add: count_style_def)
      next
        assume "find_style ch (style_name sp) = Inr None"
        then show ?thesis by (rule find_style_none)
      qed
      from None found False \<open>style e = Some sp\<close> assms(1)
      obtain node where ins: "insert_style_in_content (Some ch) (style_name sp) (style_attrs sp) (style_properties sp) = Inr (reg', node)"
        and c': "cache' = dict_set cache (style_name sp) node"
        by (cases "insert_style_in_content (Some ch) (style_name sp) (style_attrs sp) (style_properties sp)")
           (auto simp: ensure_style_def)
      from assms(2) \<open>style e = Some sp\<close>
      have ok: "case style_attrs sp of None \<Rightarrow> True | Some kvs \<Rightarrow> map_of kvs ''name'' = None"
        by (simp add: entry_ok_def)
      from insert_style_count [OF ins ok] obtain ch' where ch': "reg' = Some ch'"
        and cnt: "\<forall>m. count_style ch' m = count_style ch m + (if m = style_name sp then 1 else 0)"
        by blast
      from cnt zero have g: "grows ch ch'"
        by (simp add: grows_def)
      from assms(3) g have "cached cache ch'" by (rule cached_grows)
      with cnt c' have "cached cache' ch'"
        by (auto simp: cached_def map_of_dict_set)
      with ch' g cnt \<open>style e = Some sp\<close> show ?thesis by simp
    qed
  qed
qed

lemma for_html_nodes_step:
  assumes "for_html_nodes k e (cache, Some ch) = Inr (cache', reg')" and "entry_ok e" and "cached cache ch"
  shows "\<exists>ch'. reg' = Some ch' \<and> grows ch ch' \<and> cached cache' ch'
           \<and> (\<forall>sp. style e = Some sp \<and> 0 < k \<longrightarrow> 1 \<le> count_style ch' (style_name sp))"
  using assms
proof (induction k arbitrary: cache ch)
  case 0
  then show ?case by (auto simp: grows_refl)
next
  case (Suc k)
  from Suc.prems(1) obtain c1 r1 where e1: "ensure_style e (cache, Some ch) = Inr (c1, r1)"
    and rest: "for_html_nodes k e (c1, r1) = Inr (cache', reg')"
    by (cases "ensure_style e (cache, Some ch)") auto
  from ensure_style_step [OF e1 Suc.prems(2,3)] obtain ch1 where r1: "r1 = Some ch1"
    and g1: "grows ch ch1" and k1: "cached c1 ch1"
    and n1: "\<forall>sp. style e = Some sp \<longrightarrow> 1 \<le> count_style ch1 (style_name sp)"
    by blast
  from Suc.IH [OF rest [unfolded r1] Suc.prems(2) k1] obtain ch' where r': "reg' = Some ch'"
    and g2: "grows ch1 ch'" and k2: "cached cache' ch'"
    by blast
  from g1 g2 have g: "grows ch ch'" by (rule grows_trans)
  have "1 \<le> count_style ch' (style_name sp)" if "style e = Some sp" for sp
  proof -
    from n1 that have "1 \<le> count_style ch1 (style_name sp)" by simp
    with g2 show ?thesis unfolding grows_def by (meson order_trans)
  qed
  with r' g k2 show ?case by simp
qed

lemma for_tags_step:
  assumes "for_tags tm html (cache, Some ch) = Inr (cache', reg')" and "table_ok tm" and "cached cache ch"
  shows "\<exists>ch'. reg' = Some ch' \<and> grows ch ch' \<and> cached cache' ch'
           \<and> (\<forall>tag e sp. (tag, e) \<in> set tm \<and> style e = Some sp \<and> 0 < html tag
                 \<longrightarrow> 1 \<le> count_style ch' (style_name sp))"
  using assms
proof (induction tm arbitrary: cache ch)
  case Nil
  then show ?case by (auto simp: grows_refl)
next
  case (Cons te tm)
  obtain tag e where te: "te = (tag, e)" by (cases te)
  from Cons.prems(1) te obtain c1 r1 where e1: "for_html_nodes (html tag) e (cache, Some ch) = Inr (c1, r1)"
    and rest: "for_tags tm html (c1, r1) = Inr (cache', reg')"
    by (cases "for_html_nodes (html tag) e (cache, Some ch)") auto
  from Cons.prems(2) te have ok: "entry_ok e" and oks: "table_ok tm"
    by (simp_all add: table_ok_def)
  from for_html_nodes_step [OF e1 ok Cons.prems(3)] obtain ch1 where r1: "r1 = Some ch1"
    and g1: "grows ch ch1" and k1: "cached c1 ch1"
    and n1: "\<forall>sp. style e = Some sp \<and> 0 < html tag \<longrightarrow> 1 \<le> count_style ch1 (style_name sp)"
    by blast
  from Cons.IH [OF rest [unfolded r1] oks k1] obtain ch' where r': "reg' = Some ch'"
    and g2: "grows ch1 ch'" and k2: "cached cache' ch'"
    and n2: "\<forall>tag e sp. (tag, e) \<in> set tm \<and> style e = Some sp \<and> 0 < html tag
                 \<longrightarrow> 1 \<le> count_style ch' (style_name sp)"
    by blast
  from g1 g2 have g: "grows ch ch'" by (rule grows_trans)
  have "1 \<le> count_style ch' (style_name sp)"
    if "(t, x) \<in> set (te # tm)" "style x = Some sp" "0 < html t" for t x sp
  proof (cases "(t, x) = (tag, e)")
    case True
    with n1 that have "1 \<le> count_style ch1 (style_name sp)" by simp
    with g2 show ?thesis unfolding grows_def by (meson order_trans)
  next
    case False
    with that te n2 show ?thesis by auto
  qed
  with r' g k2 show ?case by blast
qed

lemma required_single:
  "m \<in> set (required tm [html]) \<Longrightarrow>
     \<exists>tag e sp. (tag, e) \<in> set tm \<and> style e = Some sp \<and> 0 < html tag \<and> m = style_name sp"
  apply (auto simp: required_def split: option.splits if_splits)
  apply metis
  done

lemma required_Cons: "set (required tm (html # calls)) = set (required tm [html]) \<union> set (required tm calls)"
  by (simp add: required_def)

lemma markdown_filter_styles_step:
  assumes "markdown_filter_styles tm html (Some ch) = Inr reg'" and "table_ok tm"
  shows "\<exists>ch'. reg' = Some ch' \<and> grows ch ch'
           \<and> (\<forall>n \<in> set (required tm [html]). 1 \<le> count_style ch' n)"
proof -
  from assms(1) obtain cache' where ft: "for_tags tm html ([], Some ch) = Inr (cache', reg')"
    by (cases "for_tags tm html ([], Some ch)") (auto simp: markdown_filter_styles_def)
  have "cached [] ch" by (simp add: cached_def)
  from for_tags_step [OF ft assms(2) this] obtain ch' where r': "reg' = Some ch'"
    and g: "grows ch ch'"
    and n: "\<forall>tag e sp. (tag, e) \<in> set tm \<and> style e = Some sp \<and> 0 < html tag
                 \<longrightarrow> 1 \<le> count_style ch' (style_name sp)"
    by blast
  have "1 \<le> count_style ch' m" if "m \<in> set (required tm [html])" for m
  proof -
    from that have "\<exists>tag e sp. (tag, e) \<in> set tm \<and> style e = Some sp \<and> 0 < html tag \<and> m = style_name sp"
      by (rule required_single)
    with n show ?thesis by blast
  qed
  with r' g show ?thesis by blast
qed

lemma markdown_calls_step:
  assumes "markdown_calls tm calls (Some ch) = Inr reg'" and "table_ok tm"
  shows "\<exists>ch'. reg' = Some ch' \<and> grows ch ch'
           \<and> (\<forall>n \<in> set (required tm calls). 1 \<le> count_style ch' n)"
  using assms
proof (induction calls arbitrary: ch)
  case Nil
  then show ?case by (auto simp: grows_refl required_def)
next
  case (Cons html calls)
  from Cons.prems(1) obtain r1 where e1: "markdown_filter_styles tm html (Some ch) = Inr r1"
    and rest: "markdown_calls tm calls r1 = Inr reg'"
    by (cases "markdown_filter_styles tm html (Some ch)") auto
  from markdown_filter_styles_step [OF e1 Cons.prems(2)] obtain ch1 where r1: "r1 = Some ch1"
    and g1: "grows ch ch1" and n1: "\<forall>n \<in> set (required tm [html]). 1 \<le> count_style ch1 n"
    by blast
  from Cons.IH [OF rest [unfolded r1] Cons.prems(2)] obtain ch' where r': "reg' = Some ch'"
    and g2: "grows ch1 ch'" and n2: "\<forall>n \<in> set (required tm calls). 1 \<le> count_style ch' n"
    by blast
  from g1 g2 have g: "grows ch ch'" by (rule grows_trans)
  have "1 \<le> count_style ch' m" if "m \<in> set (required tm (html # calls))" for m
  proof -
    from that required_Cons [of tm html calls]
    consider "m \<in> set (required tm [html])" | "m \<in> set (required tm calls)"
      by blast
    then show ?thesis
    proof cases
      case 1
      with n1 have "1 \<le> count_style ch1 m" by simp
      with g2 show ?thesis unfolding grows_def by (meson order_trans)
    next
      case 2
      with n2 show ?thesis by simp
    qed
  qed
  with r' g show ?case by blast
qed

text \<open>
  C9, as the code has it. Take a sequence of invocations of the markdown filter within
  one render that returns, and a table whose style attributes do not rebind
  \<^verbatim>\<open>style:name\<close>. A style is inserted only when the registry does not hold its name: no
  name occurs more often in the registry afterwards than before, unless it did not occur,
  and then it occurs once; and every style name that the calls required occurs. So from
  a registry that holds no name twice, none is held twice afterwards and every required
  style is present exactly once.
\<close>

theorem styles_exactly_once:
  assumes "markdown_calls tm calls (Some auto_styles) = Inr reg'"
    and "table_ok tm"
  shows "\<exists>auto_styles'. reg' = Some auto_styles'
           \<and> (\<forall>n. count_style auto_styles n \<le> count_style auto_styles' n
                  \<and> count_style auto_styles' n \<le> max 1 (count_style auto_styles n))
           \<and> (\<forall>n \<in> set (required tm calls). 1 \<le> count_style auto_styles' n)
           \<and> ((\<forall>n. count_style auto_styles n \<le> 1) \<longrightarrow>
                 (\<forall>n. count_style auto_styles' n \<le> 1)
                 \<and> (\<forall>n \<in> set (required tm calls). count_style auto_styles' n = 1))"
proof -
  from markdown_calls_step [OF assms(1,2)] obtain ch' where r': "reg' = Some ch'"
    and g: "grows auto_styles ch'"
    and n: "\<forall>n \<in> set (required tm calls). 1 \<le> count_style ch' n"
    by blast
  from g have bounds: "\<forall>n. count_style auto_styles n \<le> count_style ch' n
                  \<and> count_style ch' n \<le> max 1 (count_style auto_styles n)"
    by (simp add: grows_def)
  have once: "(\<forall>n. count_style ch' n \<le> 1)
                \<and> (\<forall>n \<in> set (required tm calls). count_style ch' n = 1)"
    if small: "\<forall>n. count_style auto_styles n \<le> 1"
  proof -
    have le: "count_style ch' m \<le> 1" for m
    proof -
      from bounds have "count_style ch' m \<le> max 1 (count_style auto_styles m)" by simp
      moreover from small have "count_style auto_styles m \<le> 1" by simp
      ultimately show ?thesis by simp
    qed
    have "count_style ch' m = 1" if "m \<in> set (required tm calls)" for m
      using n that le [of m] by (simp add: le_antisym)
    with le show ?thesis by blast
  qed
  from r' bounds n once show ?thesis by blast
qed

theorem styles_exactly_once_witness:
  "markdown_calls bold_map [two_strong, two_strong] (Some one_style)
     = Inr (Some (one_style @ [bold_style]))
   \<and> table_ok bold_map
   \<and> (\<forall>n. count_style one_style n \<le> 1)
   \<and> (\<forall>n. count_style (one_style @ [bold_style]) n \<le> 1)
   \<and> count_style (one_style @ [bold_style]) ''markdown_bold'' = 1"
proof -
  have run: "markdown_calls bold_map [two_strong, two_strong] (Some one_style)
               = Inr (Some (one_style @ [bold_style]))"
    by code_simp
  have ok: "table_ok bold_map"
    by code_simp
  have once: "\<forall>n. count_style one_style n \<le> 1"
    by (simp add: count_style_def one_style_def)
  have req: "''markdown_bold'' \<in> set (required bold_map [two_strong, two_strong])"
    by code_simp
  from styles_exactly_once [OF run ok] once
  have "(\<forall>n. count_style (one_style @ [bold_style]) n \<le> 1)
        \<and> (\<forall>n \<in> set (required bold_map [two_strong, two_strong]).
               count_style (one_style @ [bold_style]) n = 1)"
    by blast
  with req run ok once show ?thesis
    by blast
qed

text \<open>
  C9, as the claim states it, fails. In a registry that holds the style \<^verbatim>\<open>markdown_bold\<close>
  twice, the filter finds the first and inserts nothing, so the required style is present
  twice afterwards and not once. And in a registry whose first child is a text node, the
  search for the style asks the text node for \<^verbatim>\<open>hasAttribute\<close> and the call raises, so
  that the required style is not present afterwards.
\<close>

theorem styles_exactly_once_counterexample:
  "''markdown_bold'' \<in> set (required bold_map [two_strong])
   \<and> markdown_calls bold_map [two_strong] (Some [bold_style, bold_style])
       = Inr (Some [bold_style, bold_style])
   \<and> count_style [bold_style, bold_style] ''markdown_bold'' = 2
   \<and> markdown_calls bold_map [two_strong] (Some [Text_xml '' '', one_style ! 0])
       = Inl AttributeError"
  by code_simp

subsection \<open>Packing and the entry point\<close>

text \<open>
  C1. The claim: the content part is replaced by the serialisation of the content tree.
  The code writes the serialisation of the style tree under both names: whatever the
  content tree, the entry \<^verbatim>\<open>content.xml\<close> of the new archive holds
  \<^verbatim>\<open>self.styles.toxml()\<close>. Entries with other names keep their bytes.
\<close>

theorem pack_document_writes_styles_twice:
  "pack_document w
     (r\<lparr>file_list := [(''mimetype'', m), (''content.xml'', c), (''styles.xml'', s)],
        styles := Some sdoc\<rparr>)
   = Inr [(''mimetype'', m),
          (''content.xml'', encode_ascii (toxml w (heap r) sdoc)),
          (''styles.xml'', encode_ascii (toxml w (heap r) sdoc))]"
  by (simp add: pack_document_def)

text \<open>
  C2. The claim: \<^verbatim>\<open>render_template\<close> renders the template it is given. The code never
  reads its argument: the result is that of rendering the builtin \<^verbatim>\<open>file\<close>, the same for
  every template.
\<close>

theorem render_template_ignores_template:
  "render_template w t1 kwargs = render_template w t2 kwargs
   \<and> render_template w t1 kwargs = render w (Render File_type) kwargs"
  by (simp add: render_template_def)

end
